theory Spec2Isabelle
  imports Complex_Main "HOL-Library.Word" "HOL-Library.Multiset"
begin

section \<open>JavaScript values shared by the modules\<close>

text \<open>
  A JavaScript string is a sequence of UTF-16 code units: \<open>length\<close>, \<open>slice\<close>,
  \<open>substring\<close>, \<open>indexOf\<close> and the regular expressions of the sources (none has the
  \<open>u\<close> flag) all count and match code units.  A string literal of the sources that is
  plain ASCII is written \<open>js ''...''\<close>.
\<close>

type_synonym jschar = "16 word"
type_synonym jsstring = "jschar list"

definition js :: "string \<Rightarrow> jsstring" where
  "js s = map of_char s"

text \<open>
  \<open>Array.prototype.slice(start, end)\<close> for integer arguments: a negative index counts
  from the end, and both indices are clamped into the array.
\<close>

definition js_slice :: "'a list \<Rightarrow> int \<Rightarrow> int \<Rightarrow> 'a list" where
  "js_slice xs s e =
     (let n = int (length xs);
          from = (if s < 0 then max (n + s) 0 else min s n);
          to = (if e < 0 then max (n + e) 0 else min e n)
      in take (nat (to - from)) (drop (nat from) xs))"

text \<open>
  \<open>Array.from(new Set(xs))\<close>: the distinct values of \<open>xs\<close> in the order of their first
  occurrence.
\<close>

definition js_set_values :: "'a list \<Rightarrow> 'a list" where
  "js_set_values xs = fold (\<lambda>x acc. if x \<in> set acc then acc else acc @ [x]) xs []"

text \<open>
  \<open>s.replace(/[class]+/g, f)\<close>: every maximal run of characters of the class \<open>P\<close>
  is replaced by \<open>f\<close> of the run; the other characters stay.
\<close>

function replace_runs :: "('a \<Rightarrow> bool) \<Rightarrow> ('a list \<Rightarrow> 'a list) \<Rightarrow> 'a list \<Rightarrow> 'a list" where
  "replace_runs P f [] = []"
| "replace_runs P f (c # cs) =
     (if P c then f (c # takeWhile P cs) @ replace_runs P f (dropWhile P cs)
      else c # replace_runs P f cs)"
  by pat_completeness auto
termination
  by (relation "measure (\<lambda>(P, f, xs). length xs)") (auto simp: length_dropWhile_le less_Suc_eq_le)

text \<open>The class \<open>[\u0000-\u0008\u000B\u000C\u000E-\u001F]\<close>.\<close>

definition is_control_char :: "jschar \<Rightarrow> bool" where
  "is_control_char c \<longleftrightarrow> c \<le> 0x08 \<or> c = 0x0B \<or> c = 0x0C \<or> (0x0E \<le> c \<and> c \<le> 0x1F)"

text \<open>
  The class \<open>\s\<close> of a regular expression, which is also what \<open>trim\<close>, \<open>trimStart\<close>
  and \<open>trimEnd\<close> strip: the white space and line terminators of ECMAScript.
\<close>

definition is_whitespace :: "jschar \<Rightarrow> bool" where
  "is_whitespace c \<longleftrightarrow>
     c \<in> {0x09, 0x0A, 0x0B, 0x0C, 0x0D, 0x20, 0xA0, 0x1680, 0x2028, 0x2029, 0x202F, 0x205F,
          0x3000, 0xFEFF} \<or> (0x2000 \<le> c \<and> c \<le> 0x200A)"

definition js_trimStart :: "jsstring \<Rightarrow> jsstring" where
  "js_trimStart s = dropWhile is_whitespace s"

definition js_trimEnd :: "jsstring \<Rightarrow> jsstring" where
  "js_trimEnd s = rev (dropWhile is_whitespace (rev s))"

definition js_trim :: "jsstring \<Rightarrow> jsstring" where
  "js_trim s = js_trimEnd (js_trimStart s)"

text \<open>A string without two white-space characters in a row.\<close>

definition no_whitespace_run :: "jsstring \<Rightarrow> bool" where
  "no_whitespace_run s = successively (\<lambda>x y. \<not> (is_whitespace x \<and> is_whitespace y)) s"

text \<open>
  \<open>Array.prototype.sort(compare)\<close>, which is stable.  \<open>after a b\<close> says that
  \<open>compare(a, b)\<close> is positive, so that \<open>a\<close> belongs behind \<open>b\<close>; for a comparator
  that orders the elements consistently the result is the one stable arrangement, which
  insertion from the right computes.
\<close>

fun insert_sorted :: "('a \<Rightarrow> 'a \<Rightarrow> bool) \<Rightarrow> 'a \<Rightarrow> 'a list \<Rightarrow> 'a list" where
  "insert_sorted after x [] = [x]"
| "insert_sorted after x (y # ys) =
     (if after x y then y # insert_sorted after x ys else x # y # ys)"

definition js_sort :: "('a \<Rightarrow> 'a \<Rightarrow> bool) \<Rightarrow> 'a list \<Rightarrow> 'a list" where
  "js_sort after xs = foldr (insert_sorted after) xs []"

text \<open>
  \<open>String(n)\<close> (as a template literal applies it) for an integer \<open>n\<close> of magnitude below
  \<open>10^21\<close>: its decimal digits.
\<close>

fun nat_digits :: "nat \<Rightarrow> jsstring" where
  "nat_digits n = (if n < 10 then [0x30 + of_nat n] else nat_digits (n div 10) @ [0x30 + of_nat (n mod 10)])"

declare nat_digits.simps [simp del]

definition js_number_string :: "int \<Rightarrow> jsstring" where
  "js_number_string i = (if i < 0 then js ''-'' @ nat_digits (nat (- i)) else nat_digits (nat i))"

section \<open>src/lib/pdf/saveEmbeddings.ts: saveEmbeddings\<close>

text \<open>
  A row to persist.  \<open>embedding\<close> is \<open>None\<close> where the field is \<open>undefined\<close> or
  \<open>null\<close> at run time, which the source provides for with \<open>r.embedding?.length ?? 0\<close>.
\<close>

record EmbeddingSaveRow =
  row_id :: jsstring
  document_id :: jsstring
  chunk_index :: int
  row_page_number :: int
  row_content :: jsstring
  embedding :: "real list option"
  char_start :: "int option"
  char_end :: "int option"

datatype save_error =
    InconsistentDimensions "int list"
  | InvalidDimension
  | InsertFailed int jsstring

text \<open>
  The data store is a collaborator: \<open>db batch\<close> is the \<open>error\<close> field of the answer
  to \<open>insert(batch)\<close> (\<open>None\<close>: no error).  The state threaded through the function
  is the list of insert calls made so far, in order.
\<close>

type_synonym insert_log = "EmbeddingSaveRow list list"

text \<open>
  The loop \<open>for (let i = 0; i < rows.length; i += batchSize)\<close>.  With a batch size
  that is not positive it never ends, so the loop is a partial function and \<open>None\<close>
  stands for not returning.
\<close>

partial_function (option) insert_batches ::
  "(EmbeddingSaveRow list \<Rightarrow> jsstring option) \<Rightarrow> int \<Rightarrow> EmbeddingSaveRow list \<Rightarrow> int \<Rightarrow>
   insert_log \<Rightarrow> ((save_error + unit) \<times> insert_log) option"
where
  "insert_batches db batchSize rows i calls =
     (if i < int (length rows) then
        (case db (js_slice rows i (i + batchSize)) of
           Some msg \<Rightarrow> Some (Inl (InsertFailed i msg), calls @ [js_slice rows i (i + batchSize)])
         | None \<Rightarrow>
             insert_batches db batchSize rows (i + batchSize)
               (calls @ [js_slice rows i (i + batchSize)]))
      else Some (Inr (), calls))"

definition embedding_dim :: "EmbeddingSaveRow \<Rightarrow> int" where
  "embedding_dim r = (case embedding r of None \<Rightarrow> 0 | Some v \<Rightarrow> int (length v))"

text \<open>
  \<open>saveEmbeddings(rows, opts)\<close>; \<open>batchSize\<close> is \<open>opts?.batchSize\<close>, defaulting
  to 50.  The result pairs the outcome (\<open>Inl\<close>: the error thrown) with the insert calls
  that were made.
\<close>

definition saveEmbeddings ::
  "(EmbeddingSaveRow list \<Rightarrow> jsstring option) \<Rightarrow> EmbeddingSaveRow list \<Rightarrow> int option \<Rightarrow>
   ((save_error + unit) \<times> insert_log) option"
where
  "saveEmbeddings db rows batchSizeOpt =
     (if rows = [] then Some (Inr (), [])
      else
        let batchSize = (case batchSizeOpt of None \<Rightarrow> 50 | Some b \<Rightarrow> b);
            dims = map embedding_dim rows;
            uniqueDims = js_set_values dims
        in if length uniqueDims \<noteq> 1 then Some (Inl (InconsistentDimensions uniqueDims), [])
           else if hd uniqueDims \<le> 0 then Some (Inl InvalidDimension, [])
           else insert_batches db batchSize rows 0 [])"

section \<open>src/lib/pdf/chunkText.ts: chunkText\<close>

text \<open>
  \<open>text.indexOf(pat, pos)\<close>: the position is clamped into \<open>[0, text.length]\<close>; the
  result is the least index from there on at which \<open>pat\<close> occurs, and \<open>-1\<close> when
  there is none.  The empty pattern occurs at every index up to \<open>text.length\<close>.
\<close>

definition js_indexOf :: "jsstring \<Rightarrow> jsstring \<Rightarrow> int \<Rightarrow> int" where
  "js_indexOf text pat pos =
     (let start = nat (min (max pos 0) (int (length text)))
      in case find (\<lambda>k. take (length pat) (drop k text) = pat) [start ..< Suc (length text)] of
           None \<Rightarrow> - 1
         | Some k \<Rightarrow> int k)"

record ChunkMeta =
  meta_id :: jsstring
  meta_content :: jsstring
  chunkIndex :: nat
  charStart :: int
  charEnd :: int

text \<open>
  The body of the \<open>for\<close> loop over the fragments of the splitter, with the loop
  index \<open>i\<close> and the search cursor as arguments.  \<open>uuidv4 i\<close> is the identifier that
  the call of \<open>uuidv4()\<close> in iteration \<open>i\<close> of this invocation draws: identifiers are
  random, so two invocations have two such sequences.
\<close>

fun chunk_loop :: "(nat \<Rightarrow> jsstring) \<Rightarrow> jsstring \<Rightarrow> jsstring list \<Rightarrow> nat \<Rightarrow> int \<Rightarrow> ChunkMeta list" where
  "chunk_loop uuidv4 text [] i cursor = []"
| "chunk_loop uuidv4 text (chunk # rest) i cursor =
     (let foundAt = js_indexOf text chunk cursor;
          start = (if foundAt \<ge> 0 then foundAt else cursor);
          end = start + int (length chunk)
      in \<lparr>meta_id = uuidv4 i, meta_content = chunk, chunkIndex = i,
          charStart = start, charEnd = end\<rparr>
         # chunk_loop uuidv4 text rest (Suc i) end)"

text \<open>
  \<open>chunkText(text, chunkSize, chunkOverlap)\<close>.  The splitter is the library class
  \<open>RecursiveCharacterTextSplitter\<close>, which is not part of the repository:
  \<open>splitText chunkSize chunkOverlap text\<close> stands for the fragments it returns, and
  \<open>None\<close> for its throwing (it rejects an overlap that is not below the size).
\<close>

definition chunkText ::
  "(int \<Rightarrow> int \<Rightarrow> jsstring \<Rightarrow> jsstring list option) \<Rightarrow> (nat \<Rightarrow> jsstring) \<Rightarrow>
   jsstring \<Rightarrow> int \<Rightarrow> int \<Rightarrow> ChunkMeta list option"
where
  "chunkText splitText uuidv4 text chunkSize chunkOverlap =
     (case splitText chunkSize chunkOverlap text of
        None \<Rightarrow> None
      | Some chunks \<Rightarrow> Some (chunk_loop uuidv4 text chunks 0 0))"

text \<open>The start offset that one iteration of the loop of \<open>chunkText\<close> chooses.\<close>

definition chunk_start :: "jsstring \<Rightarrow> jsstring \<Rightarrow> int \<Rightarrow> int" where
  "chunk_start text chunk cursor =
     (if js_indexOf text chunk cursor \<ge> 0 then js_indexOf text chunk cursor else cursor)"


text \<open>The search cursor of iteration \<open>i\<close>: the end of the previous fragment, 0 at first.\<close>

definition cursor_at :: "ChunkMeta list \<Rightarrow> nat \<Rightarrow> int" where
  "cursor_at ms i = (if i = 0 then 0 else charEnd (ms ! (i - 1)))"

text \<open>
  Concrete inputs: a splitter that returns two overlapping windows of the text (its first
  four characters, and everything from the third on), and two identifier draws.
\<close>

definition split_windows :: "int \<Rightarrow> int \<Rightarrow> jsstring \<Rightarrow> jsstring list option" where
  "split_windows chunkSize chunkOverlap text =
     (if chunkOverlap \<ge> chunkSize then None
      else Some (filter (\<lambda>c. c \<noteq> []) [take 4 text, drop 2 text]))"

definition uuid_draw_a :: "nat \<Rightarrow> jsstring" where
  "uuid_draw_a i = js ''a'' @ replicate i 0x30"


section \<open>src/lib/pdf/pageMapping.ts: approximatePagesForChunks\<close>




section \<open>src/lib/buildSystemPrompt.ts\<close>

datatype Role = strict_qa | advocate | concise_hr | interview_coach | technical_explainer
  | friend | storyteller

record PromptChunk =
  pc_page_number :: int
  pc_content :: jsstring
  pc_id :: "jsstring option"
  pc_similarity :: "real option"
  pc_docId :: "jsstring option"

text \<open>
  The options of a call without a token counter: \<open>tokenCounter\<close>, \<open>maxContextTokens\<close>
  and \<open>perChunkTokens\<close> are absent, so both tests \<open>tokenCounter && ...\<close> of the source
  fail and the character-based branches run.  \<open>None\<close> is an omitted option, for which
  the source has a default.
\<close>

record BuildOpts =
  maxContextChars :: "int option"
  perChunkChars :: "int option"
  sortChunks :: "bool option"
  assumeSorted :: "bool option"

text \<open>The class \<open>[\u0000-\u0008\u000B\u000C\u000E-\u001F\u007F-\u009F]\<close>.\<close>

definition is_control_char_c1 :: "jschar \<Rightarrow> bool" where
  "is_control_char_c1 c \<longleftrightarrow> is_control_char c \<or> (0x7F \<le> c \<and> c \<le> 0x9F)"

definition is_blank :: "jschar \<Rightarrow> bool" where
  "is_blank c \<longleftrightarrow> c = 0x20 \<or> c = 0x09"

text \<open>
  \<open>safeNormalize\<close>.  Unicode normalisation is a function of the platform:
  \<open>nfkc\<close> stands for \<open>s.normalize("NFKC")\<close>.
\<close>

definition safeNormalize :: "(jsstring \<Rightarrow> jsstring) \<Rightarrow> jsstring \<Rightarrow> jsstring" where
  "safeNormalize nfkc s =
     js_trim
       (replace_runs (\<lambda>c. c = 0x0A) (\<lambda>run. if length run \<ge> 3 then [0x0A, 0x0A] else run)
         (replace_runs is_blank (\<lambda>_. js '' '')
           (replace_runs is_control_char_c1 (\<lambda>_. []) (nfkc s))))"

definition truncateChars :: "jsstring \<Rightarrow> int \<Rightarrow> jsstring" where
  "truncateChars s maxChars =
     (if int (length s) \<le> maxChars then s
      else let cut = max 0 (maxChars - 3) in js_trimEnd (js_slice s 0 cut) @ js ''...'')"

text \<open>
  The comparator of the sort, \<open>sb - sa\<close> with \<open>-Infinity\<close> for a missing similarity:
  it is positive when \<open>b\<close> has a similarity and \<open>a\<close> has none or a smaller one
  (\<open>-Infinity - -Infinity\<close> is \<open>NaN\<close>, which the sort takes as 0).
\<close>

definition less_relevant :: "PromptChunk \<Rightarrow> PromptChunk \<Rightarrow> bool" where
  "less_relevant a b =
     (case (pc_similarity a, pc_similarity b) of
        (None, Some sb) \<Rightarrow> True
      | (Some sa, Some sb) \<Rightarrow> sb - sa > 0
      | (_, None) \<Rightarrow> False)"

definition chunk_header :: "PromptChunk \<Rightarrow> jsstring" where
  "chunk_header ch =
     (case pc_id ch of
        None \<Rightarrow> js ''[Page '' @ js_number_string (pc_page_number ch) @ js ''] ''
      | Some i \<Rightarrow>
          if i \<noteq> []
          then js ''[Page '' @ js_number_string (pc_page_number ch) @ js '' | id:'' @ i @ js ''] ''
          else js ''[Page '' @ js_number_string (pc_page_number ch) @ js ''] '')"

text \<open>
  The character-based assembly loop, with the context built so far as an argument; the
  \<open>break\<close> returns it.
\<close>

fun assemble_chars :: "int \<Rightarrow> PromptChunk list \<Rightarrow> jsstring \<Rightarrow> jsstring" where
  "assemble_chars maxChars [] context = context"
| "assemble_chars maxChars (ch # rest) context =
     (let header = chunk_header ch;
          candidate = (if context \<noteq> [] then context @ [0x0A, 0x0A] @ header @ pc_content ch
                       else header @ pc_content ch)
      in if int (length candidate) > maxChars then
           (if context = []
            then header @ truncateChars (pc_content ch) (max 8 (maxChars - int (length header) - 5))
            else context)
         else assemble_chars maxChars rest candidate)"

text \<open>The list \<open>safeChunks\<close>: the fragments sorted if requested, sanitised and truncated.\<close>

definition safeChunks :: "(jsstring \<Rightarrow> jsstring) \<Rightarrow> BuildOpts \<Rightarrow> PromptChunk list \<Rightarrow> PromptChunk list" where
  "safeChunks nfkc opts chunks =
     (let perChunk = (case perChunkChars opts of None \<Rightarrow> 3000 | Some n \<Rightarrow> n);
          sortRequested = (case sortChunks opts of None \<Rightarrow> True | Some b \<Rightarrow> b);
          sorted_already = (case assumeSorted opts of None \<Rightarrow> False | Some b \<Rightarrow> b);
          workingChunks = (if sortRequested \<and> \<not> sorted_already then js_sort less_relevant chunks
                           else chunks)
      in map (\<lambda>c. c\<lparr>pc_content := truncateChars (safeNormalize nfkc (pc_content c)) perChunk\<rparr>)
           workingChunks)"

text \<open>The final value of the variable \<open>context\<close> for a non-empty list of fragments.\<close>

definition context_block :: "(jsstring \<Rightarrow> jsstring) \<Rightarrow> BuildOpts \<Rightarrow> PromptChunk list \<Rightarrow> jsstring" where
  "context_block nfkc opts chunks =
     assemble_chars (case maxContextChars opts of None \<Rightarrow> 14000 | Some n \<Rightarrow> n)
       (safeChunks nfkc opts chunks) []"

text \<open>
  The result: the fixed message for an empty list, and otherwise the template of the
  source (guardrails, instructions of the role, context block), which is fixed text
  around the two parts kept here.
\<close>

datatype system_prompt = NoRelevantContext | Instructions Role jsstring

definition buildSystemPrompt ::
  "(jsstring \<Rightarrow> jsstring) \<Rightarrow> PromptChunk list \<Rightarrow> Role \<Rightarrow> BuildOpts \<Rightarrow> system_prompt" where
  "buildSystemPrompt nfkc chunks role opts =
     (if chunks = [] then NoRelevantContext
      else Instructions role (context_block nfkc opts chunks))"





section \<open>src/app/api/chat/route.ts\<close>

subsection \<open>sanitizeText\<close>

text \<open>The value of \<open>cleaned\<close>: control characters removed, white space collapsed, trimmed.\<close>

definition cleaned_text :: "jsstring \<Rightarrow> jsstring" where
  "cleaned_text s =
     js_trim (replace_runs is_whitespace (\<lambda>_. js '' '')
               (replace_runs is_control_char (\<lambda>_. []) s))"

definition sanitizeText :: "jsstring \<Rightarrow> int \<Rightarrow> jsstring" where
  "sanitizeText s maxLen =
     (if s = [] then []
      else
        let cleaned = cleaned_text s
        in if int (length cleaned) > maxLen
           then js_trimEnd (js_slice cleaned 0 (maxLen - 3)) @ js ''...''
           else cleaned)"

subsection \<open>Values from the wire, configuration, collaborators\<close>

text \<open>
  A similarity arrives as a number, as a string or as \<open>null\<close>.  A number of
  JavaScript is a finite double, \<open>NaN\<close> or an infinity; \<open>normalizeChunks\<close> keeps
  only finite values, and from there on a similarity is the real number that the double
  denotes: comparison, \<open>Math.max\<close> and the sign of a difference of finite doubles are
  those of the reals.
\<close>

datatype jsnum = Finite real | NaN | PosInfinity | NegInfinity

datatype raw_similarity = SimString jsstring | SimNumber jsnum | SimNull

record ChunkFromDb =
  db_id :: jsstring
  db_content :: "jsstring option"
  db_page_number :: "int option"
  db_similarity :: raw_similarity

record Chunk =
  chunk_id :: jsstring
  content :: jsstring
  page_number :: int
  similarity :: real

text \<open>
  The thresholds that the module reads from the environment, taken to be numbers; the
  time-outs are not part of the record, since a call that times out is a rejected call.
\<close>

record config =
  MIN_SIMILARITY :: real
  MATCH_COUNT :: int
  MATCH_THRESHOLD :: real
  FALLBACK_THRESHOLD :: real
  FALLBACK_COUNT :: int
  MATCH_COUNT_FINAL :: int
  PER_CHUNK_CHARS :: int

definition default_config :: config where
  "default_config =
     \<lparr>MIN_SIMILARITY = 35 / 100, MATCH_COUNT = 8, MATCH_THRESHOLD = 25 / 100,
      FALLBACK_THRESHOLD = 10 / 100, FALLBACK_COUNT = 20, MATCH_COUNT_FINAL = 12,
      PER_CHUNK_CHARS = 2000\<rparr>"

text \<open>The outcome of an awaited call under its time-out.\<close>

datatype 'a outcome = Rejected | Resolved 'a

record rpc_args =
  query_embedding :: "real list"
  session_id :: jsstring
  match_threshold :: real
  match_count :: int

record source =
  src_page :: int
  src_similarity :: real
  excerpt :: jsstring

record message =
  msg_role :: jsstring
  msg_content :: jsstring

record llm_call =
  llm_model :: jsstring
  llm_system :: system_prompt
  llm_messages :: "message list"
  llm_temperature :: real

datatype read_result = ReadDone | ReadValue "8 word list option" | ReadRejected

datatype provider_answer = StreamTextThrows | NoBody | Body "read_result list"

text \<open>
  The services and platform functions that the handler calls: the embedding service,
  the stored procedure \<open>match_chunks\<close> (its first argument counts the calls of one
  request, since the store may answer the same query differently), \<open>Number.parseFloat\<close>,
  \<open>String.prototype.normalize("NFKC")\<close>, \<open>JSON.stringify({ sources })\<close>,
  \<open>TextEncoder.encode\<close> and the language-model provider.
\<close>

record collaborators =
  getEmbedding :: "jsstring \<Rightarrow> real list outcome"
  match_chunks :: "nat \<Rightarrow> rpc_args \<Rightarrow> ChunkFromDb list option outcome"
  parseFloat :: "jsstring \<Rightarrow> jsnum"
  normalize_NFKC :: "jsstring \<Rightarrow> jsstring"
  stringify_sources :: "source list \<Rightarrow> jsstring"
  encode :: "jsstring \<Rightarrow> 8 word list"
  streamText :: "llm_call \<Rightarrow> provider_answer"

subsection \<open>normalizeChunks\<close>

definition normalizeChunks :: "(jsstring \<Rightarrow> jsnum) \<Rightarrow> ChunkFromDb list \<Rightarrow> Chunk list" where
  "normalizeChunks parse rows =
     map (\<lambda>r.
       let sim = (case db_similarity r of
                    SimString s \<Rightarrow> parse s
                  | SimNumber n \<Rightarrow> n
                  | SimNull \<Rightarrow> Finite 0)
       in \<lparr>chunk_id = db_id r,
           content = (case db_content r of None \<Rightarrow> [] | Some c \<Rightarrow> c),
           page_number = (case db_page_number r of None \<Rightarrow> 0 | Some p \<Rightarrow> p),
           similarity = (case sim of Finite x \<Rightarrow> x | _ \<Rightarrow> 0)\<rparr>) rows"

subsection \<open>retrieveChunks\<close>

text \<open>\<open>Math.max(...xs)\<close> for a non-empty list of finite numbers.\<close>

definition js_Math_max :: "real list \<Rightarrow> real" where
  "js_Math_max xs = fold max (tl xs) (hd xs)"

definition top_similarity :: "Chunk list \<Rightarrow> real" where
  "top_similarity chunks = (if chunks = [] then 0 else js_Math_max (map similarity chunks))"

text \<open>
  A \<open>Map\<close> keeps its keys in insertion order, and \<open>set\<close> on a key that is present
  replaces the value in place.
\<close>

fun map_set :: "'k \<Rightarrow> 'v \<Rightarrow> ('k \<times> 'v) list \<Rightarrow> ('k \<times> 'v) list" where
  "map_set k v [] = [(k, v)]"
| "map_set k v ((k', v') # m) = (if k' = k then (k, v) # m else (k', v') # map_set k v m)"

text \<open>The body of the \<open>forEach\<close> that merges the two result lists.\<close>

definition merge_step :: "Chunk \<Rightarrow> (jsstring \<times> Chunk) list \<Rightarrow> (jsstring \<times> Chunk) list" where
  "merge_step c m =
     (case map_of m (chunk_id c) of
        None \<Rightarrow> map_set (chunk_id c) c m
      | Some existing \<Rightarrow>
          if similarity c > similarity existing then map_set (chunk_id c) c m else m)"

definition merge_chunks :: "Chunk list \<Rightarrow> Chunk list" where
  "merge_chunks cs = map snd (fold merge_step cs [])"

text \<open>The comparator \<open>b.similarity - a.similarity\<close> is positive.\<close>

definition lower_similarity :: "Chunk \<Rightarrow> Chunk \<Rightarrow> bool" where
  "lower_similarity a b \<longleftrightarrow> similarity b - similarity a > 0"

text \<open>
  What made the retrieval fail.  The outer \<open>catch\<close> logs it and throws the one error
  \<open>Failed to retrieve relevant content from PDF.\<close> whatever the cause.
\<close>

datatype retrieval_error = EmbeddingFailure | InvalidEmbedding | SupabaseInitialError

definition strict_args :: "config \<Rightarrow> real list \<Rightarrow> jsstring \<Rightarrow> rpc_args" where
  "strict_args cfg questionEmbedding sessionId =
     \<lparr>query_embedding = questionEmbedding, session_id = sessionId,
      match_threshold = MATCH_THRESHOLD cfg, match_count = MATCH_COUNT cfg\<rparr>"

definition fallback_args :: "config \<Rightarrow> real list \<Rightarrow> jsstring \<Rightarrow> rpc_args" where
  "fallback_args cfg questionEmbedding sessionId =
     \<lparr>query_embedding = questionEmbedding, session_id = sessionId,
      match_threshold = FALLBACK_THRESHOLD cfg, match_count = FALLBACK_COUNT cfg\<rparr>"

definition rows_of :: "ChunkFromDb list option \<Rightarrow> ChunkFromDb list" where
  "rows_of raw = (case raw of None \<Rightarrow> [] | Some rows \<Rightarrow> rows)"

text \<open>
  \<open>retrieveChunks(question, sessionId, requestId)\<close>: the result, and the calls of the
  stored procedure made on the way, in order.
\<close>

definition retrieveChunks ::
  "collaborators \<Rightarrow> config \<Rightarrow> jsstring \<Rightarrow> jsstring \<Rightarrow> (retrieval_error + Chunk list) \<times> rpc_args list"
where
  "retrieveChunks env cfg question sessionId =
     (case getEmbedding env question of
        Rejected \<Rightarrow> (Inl EmbeddingFailure, [])
      | Resolved questionEmbedding \<Rightarrow>
          if questionEmbedding = [] then (Inl InvalidEmbedding, [])
          else
            (case match_chunks env 0 (strict_args cfg questionEmbedding sessionId) of
               Rejected \<Rightarrow>
                 (Inl SupabaseInitialError, [strict_args cfg questionEmbedding sessionId])
             | Resolved raw1 \<Rightarrow>
                 let chunks1 = normalizeChunks (parseFloat env) (rows_of raw1);
                     topSim1 = top_similarity chunks1
                 in if topSim1 \<ge> MIN_SIMILARITY cfg
                    then (Inr chunks1, [strict_args cfg questionEmbedding sessionId])
                    else
                      (case match_chunks env 1 (fallback_args cfg questionEmbedding sessionId) of
                         Rejected \<Rightarrow>
                           (Inr chunks1,
                            [strict_args cfg questionEmbedding sessionId,
                             fallback_args cfg questionEmbedding sessionId])
                       | Resolved raw2 \<Rightarrow>
                           let chunks2 = normalizeChunks (parseFloat env) (rows_of raw2);
                               merged = js_sort lower_similarity (merge_chunks (chunks1 @ chunks2))
                           in (Inr (js_slice merged 0 (MATCH_COUNT_FINAL cfg)),
                               [strict_args cfg questionEmbedding sessionId,
                                fallback_args cfg questionEmbedding sessionId]))))"

subsection \<open>POST\<close>

text \<open>
  \<open>Number(x.toFixed(4))\<close>, as the decimal number it denotes: \<open>toFixed\<close> picks the
  integer \<open>n\<close> with \<open>n / 10^4\<close> nearest to the magnitude of \<open>x\<close>, the larger one at a
  tie, and prints numbers from \<open>10^21\<close> on without rounding.
\<close>

definition toFixed4 :: "real \<Rightarrow> real" where
  "toFixed4 x =
     (if \<bar>x\<bar> \<ge> 10 ^ 21 then x
      else if x < 0 then - (of_int \<lfloor>- x * 10 ^ 4 + 1 / 2\<rfloor> / 10 ^ 4)
      else of_int \<lfloor>x * 10 ^ 4 + 1 / 2\<rfloor> / 10 ^ 4)"

definition build_sources :: "Chunk list \<Rightarrow> source list" where
  "build_sources chunks =
     map (\<lambda>c. \<lparr>src_page = page_number c,
               src_similarity = toFixed4 (similarity c),
               excerpt = (if length (content c) > 200 then take 200 (content c) @ js ''...''
                          else content c)\<rparr>) chunks"

text \<open>
  The parsed body of a request.  Its member \<open>allowUngrounded\<close> is the one that the
  interface description names; the handler destructures \<open>messages\<close>, \<open>sessionId\<close> and
  \<open>role\<close> only.
\<close>

record ChatRequest =
  req_messages :: "message list option"
  req_sessionId :: jsstring
  req_role :: Role
  allowUngrounded :: "bool option"

record insufficient_body =
  answer :: jsstring
  reason :: jsstring
  topSimilarity :: real
  sources :: "source list"

datatype json_body = ErrorBody jsstring | InsufficientBody insufficient_body

datatype stream_state = Closed | Pending

datatype response =
    NextResponse_json json_body nat
  | StreamResponse "8 word list list" stream_state

record effects =
  rpc_calls :: "rpc_args list"
  llm_calls :: "llm_call list"

definition truncatedChunksForPrompt :: "config \<Rightarrow> Chunk list \<Rightarrow> PromptChunk list" where
  "truncatedChunksForPrompt cfg chunks =
     map (\<lambda>c.
       \<lparr>pc_page_number = page_number c,
        pc_content =
          sanitizeText
            (if int (length (content c)) > PER_CHUNK_CHARS cfg
             then js_trimEnd (js_slice (content c) 0 (PER_CHUNK_CHARS cfg - 3)) @ js ''...''
             else content c)
            (PER_CHUNK_CHARS cfg),
        pc_id = None, pc_similarity = None, pc_docId = None\<rparr>) chunks"

definition delimiter :: jsstring where
  "delimiter = [0x0A] @ js ''---'' @ [0x0A]"

definition stream_error_marker :: jsstring where
  "stream_error_marker = [0x0A, 0x0A] @ js ''[STREAM_ERROR]'' @ [0x0A]"

text \<open>
  The relay loop \<open>while (true) { read ... }\<close> over a finite script of the results of
  \<open>reader.read()\<close>: the stream ends when the provider is done or a read rejects, and
  after the script the next read stays pending, with the stream open.
\<close>

fun relay :: "read_result list \<Rightarrow> 8 word list \<Rightarrow> 8 word list list \<Rightarrow> 8 word list list \<times> stream_state" where
  "relay [] marker written = (written, Pending)"
| "relay (ReadDone # rs) marker written = (written, Closed)"
| "relay (ReadValue (Some v) # rs) marker written = relay rs marker (written @ [v])"
| "relay (ReadValue None # rs) marker written = relay rs marker written"
| "relay (ReadRejected # rs) marker written = (written @ [marker], Closed)"

text \<open>What \<open>customStream\<close> enqueues, in order, and whether it has been closed.\<close>

definition customStream :: "collaborators \<Rightarrow> source list \<Rightarrow> llm_call \<Rightarrow> 8 word list list \<times> stream_state" where
  "customStream env srcs call =
     (let first = encode env (stringify_sources env srcs @ delimiter)
      in case streamText env call of
           StreamTextThrows \<Rightarrow> ([first, encode env stream_error_marker], Closed)
         | NoBody \<Rightarrow> ([first, encode env stream_error_marker], Closed)
         | Body reads \<Rightarrow> relay reads (encode env stream_error_marker) [first])"

definition prompt_opts :: "config \<Rightarrow> BuildOpts" where
  "prompt_opts cfg =
     \<lparr>maxContextChars = Some 14000, perChunkChars = Some (PER_CHUNK_CHARS cfg),
      sortChunks = None, assumeSorted = None\<rparr>"

definition provider_call :: "collaborators \<Rightarrow> config \<Rightarrow> Role \<Rightarrow> jsstring \<Rightarrow> Chunk list \<Rightarrow> llm_call" where
  "provider_call env cfg role userQuestion chunks =
     (let systemPrompt =
            buildSystemPrompt (normalize_NFKC env) (truncatedChunksForPrompt cfg chunks) role
              (prompt_opts cfg);
          temp = (if role = strict_qa then 2 / 10 else 5 / 10)
      in \<lparr>llm_model = js ''openrouter/free'',
          llm_system = systemPrompt,
          llm_messages = [\<lparr>msg_role = js ''user'', msg_content = userQuestion\<rparr>],
          llm_temperature = temp\<rparr>)"

text \<open>
  The handler: the response, and the calls it made to the store and to the provider.
\<close>

definition POST :: "collaborators \<Rightarrow> config \<Rightarrow> ChatRequest \<Rightarrow> response \<times> effects" where
  "POST env cfg req =
     (case req_messages req of
        None \<Rightarrow>
          (NextResponse_json (ErrorBody (js ''No messages provided'')) 400,
           \<lparr>rpc_calls = [], llm_calls = []\<rparr>)
      | Some msgs \<Rightarrow>
          if msgs = [] then
            (NextResponse_json (ErrorBody (js ''No messages provided'')) 400,
             \<lparr>rpc_calls = [], llm_calls = []\<rparr>)
          else if msg_role (last msgs) \<noteq> js ''user'' then
            (NextResponse_json (ErrorBody (js ''Last message must be from the user'')) 400,
             \<lparr>rpc_calls = [], llm_calls = []\<rparr>)
          else
            let userQuestion = sanitizeText (msg_content (last msgs)) 3000;
                retrieved = retrieveChunks env cfg userQuestion (req_sessionId req)
            in case fst retrieved of
                 Inl err \<Rightarrow>
                   (NextResponse_json
                      (ErrorBody (js ''Failed to retrieve relevant content from PDF.'')) 500,
                    \<lparr>rpc_calls = snd retrieved, llm_calls = []\<rparr>)
               | Inr chunks \<Rightarrow>
                   let srcs = build_sources chunks;
                       topSim = top_similarity chunks
                   in if chunks = [] \<or> topSim < MIN_SIMILARITY cfg then
                        (NextResponse_json
                           (InsufficientBody
                              \<lparr>answer = js ''INSUFFICIENT_CONTEXT'',
                               reason = (if chunks = [] then js ''no_chunks_found''
                                         else js ''low_similarity''),
                               topSimilarity = topSim,
                               sources = srcs\<rparr>) 200,
                         \<lparr>rpc_calls = snd retrieved, llm_calls = []\<rparr>)
                      else
                        let call = provider_call env cfg (req_role req) userQuestion chunks;
                            stream = customStream env srcs call
                        in (StreamResponse (fst stream) (snd stream),
                            \<lparr>rpc_calls = snd retrieved, llm_calls = [call]\<rparr>))"


subsection \<open>Notions for the statements about the handler\<close>



text \<open>The gate of the handler.\<close>

definition insufficient_context :: "config \<Rightarrow> Chunk list \<Rightarrow> bool" where
  "insufficient_context cfg chunks \<longleftrightarrow> chunks = [] \<or> top_similarity chunks < MIN_SIMILARITY cfg"

text \<open>
  A text within \<open>maxLen\<close> characters, without the control characters that
  \<open>sanitizeText\<close> removes and without two white-space characters in a row.
\<close>

definition sanitized_within :: "int \<Rightarrow> jsstring \<Rightarrow> bool" where
  "sanitized_within maxLen t \<longleftrightarrow>
     int (length t) \<le> maxLen \<and>
     (\<forall>c \<in> set t. \<not> is_control_char c) \<and>
     (\<forall>i < length t - 1. \<not> (is_whitespace (t ! i) \<and> is_whitespace (t ! Suc i)))"

section \<open>Concrete inputs\<close>




text \<open>
  A store with five sessions (a strong match, a weak match with the fallback failing, weak
  matches that the fallback improves, a long fragment, nothing at all), and a provider that
  sends one chunk and ends.
\<close>

definition demo_row :: "string \<Rightarrow> raw_similarity \<Rightarrow> ChunkFromDb" where
  "demo_row i s =
     \<lparr>db_id = js i, db_content = Some (js ''text of '' @ js i), db_page_number = Some 1,
      db_similarity = s\<rparr>"

definition demo_store :: "nat \<Rightarrow> rpc_args \<Rightarrow> ChunkFromDb list option outcome" where
  "demo_store n args =
     (if session_id args = js ''strong'' then
        Resolved (Some [demo_row ''a'' (SimNumber (Finite (6 / 10)))])
      else if session_id args = js ''outage'' then
        (if n = 0 then Resolved (Some [demo_row ''a'' (SimNumber (Finite (3 / 10)))]) else Rejected)
      else if session_id args = js ''weak'' then
        (if n = 0
         then Resolved (Some [demo_row ''a'' (SimNumber (Finite (2 / 10))),
                              demo_row ''b'' (SimNumber (Finite (3 / 10)))])
         else Resolved (Some [demo_row ''c'' (SimString (js ''0.1'')),
                              demo_row ''a'' (SimNumber (Finite (34 / 100)))]))
      else if session_id args = js ''long'' then
        Resolved (Some [\<lparr>db_id = js ''l'', db_content = Some (replicate 201 0x61),
                         db_page_number = Some 2,
                         db_similarity = SimNumber (Finite (6 / 10))\<rparr>])
      else Resolved None)"

definition demo_env :: collaborators where
  "demo_env =
     \<lparr>getEmbedding = (\<lambda>q. Resolved [1, 0]),
      match_chunks = demo_store,
      parseFloat = (\<lambda>s. if s = js ''0.1'' then Finite (1 / 10) else NaN),
      normalize_NFKC = (\<lambda>s. s),
      stringify_sources = (\<lambda>srcs. js ''{sources:'' @ concat (map excerpt srcs) @ js ''}''),
      encode = map ucast,
      streamText = (\<lambda>call. Body [ReadValue (Some [0x48, 0x69]), ReadDone])\<rparr>"

definition demo_chunk :: "string \<Rightarrow> real \<Rightarrow> Chunk" where
  "demo_chunk i s =
     \<lparr>chunk_id = js i, content = js ''text of '' @ js i, page_number = 1, similarity = s\<rparr>"

definition user_request :: "string \<Rightarrow> bool option \<Rightarrow> ChatRequest" where
  "user_request session flag =
     \<lparr>req_messages = Some [\<lparr>msg_role = js ''user'', msg_content = js ''q''\<rparr>],
      req_sessionId = js session, req_role = strict_qa, allowUngrounded = flag\<rparr>"

definition long_chunk :: Chunk where
  "long_chunk = \<lparr>chunk_id = js ''l'', content = replicate 201 0x61, page_number = 2,
                  similarity = 6 / 10\<rparr>"

definition messy_text :: jsstring where
  "messy_text = [0x20, 0x09] @ js ''ab'' @ [0x0A, 0x0A, 0x01, 0x20] @ js ''cdefgh  ''"

section \<open>Facts about the shared JavaScript operations\<close>

lemma fold_set_values_set:
  "set (fold (\<lambda>x acc. if x \<in> set acc then acc else acc @ [x]) xs acc0) = set acc0 \<union> set xs"
  by (induction xs arbitrary: acc0) auto

lemma fold_set_values_distinct:
  "distinct acc0 \<Longrightarrow> distinct (fold (\<lambda>x acc. if x \<in> set acc then acc else acc @ [x]) xs acc0)"
  by (induction xs arbitrary: acc0) auto

lemma set_js_set_values: "set (js_set_values xs) = set xs"
  by (simp add: js_set_values_def fold_set_values_set)

lemma distinct_js_set_values: "distinct (js_set_values xs)"
  by (simp add: js_set_values_def fold_set_values_distinct)

lemma js_set_values_single:
  assumes "length (js_set_values xs) = 1"
  shows "\<forall>x \<in> set xs. x = hd (js_set_values xs)"
proof -
  from assms obtain d where d: "js_set_values xs = [d]"
    by (cases "js_set_values xs") auto
  have "set xs = {d}"
    using set_js_set_values [of xs] d by simp
  with d show ?thesis by simp
qed

section \<open>Saving a batch of mixed dimensions\<close>

text \<open>
  Claim C6.  For every non-empty list of rows, if the rows do not all share one positive
  embedding length, \<open>saveEmbeddings\<close> returns with an error and the list of insert
  calls is empty: nothing was persisted, whatever the data store would have answered and
  whatever the batch size.
\<close>

theorem saveEmbeddings_mixed_dimensions_fail_before_insert:
  assumes "rows \<noteq> []"
    and "\<not> (\<exists>d. 0 < d \<and> (\<forall>r \<in> set rows. embedding_dim r = d))"
  shows "\<exists>e. saveEmbeddings db rows batchSizeOpt = Some (Inl e, [])"
proof (cases "length (js_set_values (map embedding_dim rows)) = 1")
  case False
  with assms(1) show ?thesis
    by (simp add: saveEmbeddings_def Let_def)
next
  case True
  from js_set_values_single [OF True]
  have same: "\<forall>r \<in> set rows. embedding_dim r = hd (js_set_values (map embedding_dim rows))"
    by simp
  with assms(2) have "hd (js_set_values (map embedding_dim rows)) \<le> 0"
    by force
  with True assms(1) show ?thesis
    by (simp add: saveEmbeddings_def Let_def)
qed

theorem saveEmbeddings_mixed_dimensions_witness:
  "\<exists>e. saveEmbeddings (\<lambda>_. None)
         [\<lparr>row_id = js ''a'', document_id = js ''d'', chunk_index = 0, row_page_number = 1,
           row_content = js ''x'', embedding = Some [1, 0], char_start = None, char_end = None\<rparr>,
          \<lparr>row_id = js ''b'', document_id = js ''d'', chunk_index = 1, row_page_number = 1,
           row_content = js ''y'', embedding = Some [1, 0, 0], char_start = None, char_end = None\<rparr>]
         None = Some (Inl e, [])"
  by (rule saveEmbeddings_mixed_dimensions_fail_before_insert)
     (auto simp: embedding_dim_def)

section \<open>Offsets recovered by the chunker\<close>

lemma find_upt_Some:
  "find P [a ..< b] = Some k \<Longrightarrow> a \<le> k \<and> k < b \<and> P k"
  by (auto simp: find_Some_iff)

lemma js_indexOf_nonempty_ge:
  assumes "pat \<noteq> []" and "0 \<le> pos"
  shows "js_indexOf text pat pos = - 1 \<or> pos \<le> js_indexOf text pat pos"
proof (cases "find (\<lambda>k. take (length pat) (drop k text) = pat) [nat (min (max pos 0) (int (length text))) ..< Suc (length text)]")
  case None
  then show ?thesis by (simp add: js_indexOf_def)
next
  case (Some k)
  from find_upt_Some [OF Some]
  have k: "nat (min (max pos 0) (int (length text))) \<le> k" "k < Suc (length text)"
    "take (length pat) (drop k text) = pat" by auto
  have "k < length text"
  proof (rule ccontr)
    assume "\<not> k < length text"
    with k(2) have "k = length text" by simp
    with k(3) assms(1) show False by simp
  qed
  moreover have "pos \<le> int k"
  proof (cases "pos \<le> int (length text)")
    case True
    with k(1) assms(2) show ?thesis by simp
  next
    case False
    with k(1) assms(2) have "length text \<le> k" by simp
    with \<open>k < length text\<close> show ?thesis by simp
  qed
  ultimately show ?thesis using Some by (simp add: js_indexOf_def)
qed

lemma chunk_start_ge:
  "chunk \<noteq> [] \<Longrightarrow> 0 \<le> cursor \<Longrightarrow> cursor \<le> chunk_start text chunk cursor"
  using js_indexOf_nonempty_ge [of chunk cursor "text"] by (auto simp: chunk_start_def)

lemma chunk_loop_Cons:
  "chunk_loop u t (c # cs) i cur =
     \<lparr>meta_id = u i, meta_content = c, chunkIndex = i, charStart = chunk_start t c cur,
      charEnd = chunk_start t c cur + int (length c)\<rparr>
     # chunk_loop u t cs (Suc i) (chunk_start t c cur + int (length c))"
  by (simp add: chunk_start_def Let_def)

lemma length_chunk_loop: "length (chunk_loop u t cs i cur) = length cs"
  by (induction cs arbitrary: i cur) (simp_all add: chunk_loop_Cons del: chunk_loop.simps(2))

lemma content_chunk_loop: "map meta_content (chunk_loop u t cs i cur) = cs"
  by (induction cs arbitrary: i cur) (simp_all add: chunk_loop_Cons del: chunk_loop.simps(2))

lemma index_chunk_loop:
  "k < length cs \<Longrightarrow> chunkIndex (chunk_loop u t cs i cur ! k) = i + k"
proof (induction cs arbitrary: i cur k)
  case Nil
  then show ?case by simp
next
  case (Cons c cs)
  then show ?case
    by (cases k) (simp_all add: chunk_loop_Cons del: chunk_loop.simps(2))
qed

lemma end_chunk_loop:
  "m \<in> set (chunk_loop u t cs i cur) \<Longrightarrow> charEnd m = charStart m + int (length (meta_content m))"
  by (induction cs arbitrary: i cur) (auto simp: chunk_loop_Cons simp del: chunk_loop.simps(2))

lemma start_chunk_loop:
  assumes "\<forall>c \<in> set cs. c \<noteq> []" and "0 \<le> cur" and "m \<in> set (chunk_loop u t cs i cur)"
  shows "cur \<le> charStart m \<and> charStart m < charEnd m"
  using assms
proof (induction cs arbitrary: i cur)
  case Nil
  then show ?case by simp
next
  case (Cons c cs)
  have c: "c \<noteq> []" and ge: "cur \<le> chunk_start t c cur"
    using Cons.prems chunk_start_ge [of c cur t] by auto
  from Cons.prems(3) consider
      (hd) "m = \<lparr>meta_id = u i, meta_content = c, chunkIndex = i, charStart = chunk_start t c cur,
                charEnd = chunk_start t c cur + int (length c)\<rparr>"
    | (tl) "m \<in> set (chunk_loop u t cs (Suc i) (chunk_start t c cur + int (length c)))"
    by (auto simp: chunk_loop_Cons simp del: chunk_loop.simps(2))
  then show ?case
  proof cases
    case hd
    with c ge show ?thesis by simp
  next
    case tl
    have "chunk_start t c cur + int (length c) \<le> charStart m \<and> charStart m < charEnd m"
      using Cons.IH [OF _ _ tl] Cons.prems(1,2) ge by simp
    with ge show ?thesis by simp
  qed
qed

lemma sorted_chunk_loop:
  assumes "\<forall>c \<in> set cs. c \<noteq> []" and "0 \<le> cur"
  shows "sorted_wrt (\<lambda>a b. charStart a \<le> charStart b) (chunk_loop u t cs i cur)"
  using assms
proof (induction cs arbitrary: i cur)
  case Nil
  then show ?case by simp
next
  case (Cons c cs)
  have ge: "cur \<le> chunk_start t c cur"
    using Cons.prems chunk_start_ge [of c cur t] by auto
  have later: "chunk_start t c cur \<le> charStart m"
    if "m \<in> set (chunk_loop u t cs (Suc i) (chunk_start t c cur + int (length c)))" for m
    using start_chunk_loop [OF _ _ that] Cons.prems ge by simp
  have "sorted_wrt (\<lambda>a b. charStart a \<le> charStart b)
          (chunk_loop u t cs (Suc i) (chunk_start t c cur + int (length c)))"
    using Cons.IH Cons.prems ge by simp
  with later show ?case
    by (simp add: chunk_loop_Cons del: chunk_loop.simps(2))
qed

lemma cursor_chunk_loop:
  assumes "k < length cs"
  shows "charStart (chunk_loop u t cs i cur ! k) =
           chunk_start t (cs ! k)
             (if k = 0 then cur else charEnd (chunk_loop u t cs i cur ! (k - 1)))"
  using assms
proof (induction cs arbitrary: i cur k)
  case Nil
  then show ?case by simp
next
  case (Cons c cs)
  show ?case
  proof (cases k)
    case 0
    then show ?thesis by (simp add: chunk_loop_Cons del: chunk_loop.simps(2))
  next
    case (Suc k')
    with Cons.prems have k': "k' < length cs" by simp
    show ?thesis
      using Cons.IH [OF k', of "Suc i" "chunk_start t c cur + int (length c)"] Suc
      by (cases k') (simp_all add: chunk_loop_Cons del: chunk_loop.simps(2))
  qed
qed

text \<open>
  Claim C7.  The splitter is a library outside the repository; it returns non-empty
  fragments.  For every source text and every sequence of non-empty fragments that it
  returns, \<open>chunkText\<close> returns one record per fragment, in order, and the recovered
  offsets satisfy: \<open>charStart\<close> is non-decreasing with the index; \<open>charStart < charEnd\<close>;
  \<open>charEnd\<close> is \<open>charStart\<close> plus the length of the content; and the start is the
  position of the first occurrence at or after the cursor (the end of the previous
  fragment) when there is one, and the cursor itself when there is none, so that the
  recovery of offsets always produces a result.
\<close>

theorem chunkText_offsets:
  assumes "splitText chunkSize chunkOverlap text = Some chunks"
    and "\<forall>c \<in> set chunks. c \<noteq> []"
  shows "\<exists>ms. chunkText splitText uuidv4 text chunkSize chunkOverlap = Some ms \<and>
           map meta_content ms = chunks \<and>
           (\<forall>i j. i \<le> j \<and> j < length ms \<longrightarrow> charStart (ms ! i) \<le> charStart (ms ! j)) \<and>
           (\<forall>i < length ms.
              chunkIndex (ms ! i) = i \<and>
              charStart (ms ! i) < charEnd (ms ! i) \<and>
              charEnd (ms ! i) = charStart (ms ! i) + int (length (meta_content (ms ! i))) \<and>
              (js_indexOf text (chunks ! i) (cursor_at ms i) < 0 \<longrightarrow>
                 charStart (ms ! i) = cursor_at ms i) \<and>
              (0 \<le> js_indexOf text (chunks ! i) (cursor_at ms i) \<longrightarrow>
                 charStart (ms ! i) = js_indexOf text (chunks ! i) (cursor_at ms i)))"
proof -
  define ms where "ms = chunk_loop uuidv4 text chunks 0 0"
  have run: "chunkText splitText uuidv4 text chunkSize chunkOverlap = Some ms"
    using assms(1) by (simp add: chunkText_def ms_def)
  have len: "length ms = length chunks"
    by (simp add: ms_def length_chunk_loop)
  have content: "map meta_content ms = chunks"
    by (simp add: ms_def content_chunk_loop)
  have sorted: "sorted_wrt (\<lambda>a b. charStart a \<le> charStart b) ms"
    unfolding ms_def using assms(2) by (intro sorted_chunk_loop) simp_all
  have mono: "charStart (ms ! i) \<le> charStart (ms ! j)" if "i \<le> j" "j < length ms" for i j
  proof (cases "i = j")
    case True
    then show ?thesis by simp
  next
    case False
    with that have "i < j" by simp
    from sorted_wrt_nth_less [OF sorted this that(2)] show ?thesis .
  qed
  have each: "chunkIndex (ms ! i) = i \<and>
              charStart (ms ! i) < charEnd (ms ! i) \<and>
              charEnd (ms ! i) = charStart (ms ! i) + int (length (meta_content (ms ! i))) \<and>
              (js_indexOf text (chunks ! i) (cursor_at ms i) < 0 \<longrightarrow>
                 charStart (ms ! i) = cursor_at ms i) \<and>
              (0 \<le> js_indexOf text (chunks ! i) (cursor_at ms i) \<longrightarrow>
                 charStart (ms ! i) = js_indexOf text (chunks ! i) (cursor_at ms i))"
    if i: "i < length ms" for i
  proof -
    from i have mem: "ms ! i \<in> set (chunk_loop uuidv4 text chunks 0 0)"
      by (simp add: ms_def)
    have idx: "chunkIndex (ms ! i) = i"
      using index_chunk_loop [of i chunks uuidv4 "text" 0 0] i len by (simp add: ms_def)
    have lt: "charStart (ms ! i) < charEnd (ms ! i)"
      using start_chunk_loop [OF assms(2) _ mem] by simp
    have e: "charEnd (ms ! i) = charStart (ms ! i) + int (length (meta_content (ms ! i)))"
      using end_chunk_loop [OF mem] .
    have st: "charStart (ms ! i) = chunk_start text (chunks ! i) (cursor_at ms i)"
      using cursor_chunk_loop [of i chunks uuidv4 "text" 0 0] i len
      by (simp add: ms_def cursor_at_def)
    from idx lt e st show ?thesis by (simp add: chunk_start_def)
  qed
  from run content mono each show ?thesis by blast
qed

theorem chunkText_offsets_witness:
  "\<exists>ms. chunkText split_windows uuid_draw_a (js ''abcdef'') 500 200 = Some ms \<and>
     map meta_content ms = [js ''abcd'', js ''cdef''] \<and>
     (\<forall>i j. i \<le> j \<and> j < length ms \<longrightarrow> charStart (ms ! i) \<le> charStart (ms ! j)) \<and>
     (\<forall>i < length ms.
        chunkIndex (ms ! i) = i \<and>
        charStart (ms ! i) < charEnd (ms ! i) \<and>
        charEnd (ms ! i) = charStart (ms ! i) + int (length (meta_content (ms ! i))) \<and>
        (js_indexOf (js ''abcdef'') ([js ''abcd'', js ''cdef''] ! i) (cursor_at ms i) < 0 \<longrightarrow>
           charStart (ms ! i) = cursor_at ms i) \<and>
        (0 \<le> js_indexOf (js ''abcdef'') ([js ''abcd'', js ''cdef''] ! i) (cursor_at ms i) \<longrightarrow>
           charStart (ms ! i) = js_indexOf (js ''abcdef'') ([js ''abcd'', js ''cdef''] ! i) (cursor_at ms i)))"
  by (rule chunkText_offsets) (simp_all add: split_windows_def js_def)

section \<open>Determinism of the chunker\<close>




section \<open>Page numbers\<close>



section \<open>Sanitised text\<close>

lemma replace_runs_remove: "replace_runs P (\<lambda>_. []) xs = filter (\<lambda>c. \<not> P c) xs"
proof (induction P "\<lambda>_::'a list. []::'a list" xs rule: replace_runs.induct)
  case (1 P)
  then show ?case by simp
next
  case (2 P c cs)
  have "filter (\<lambda>c. \<not> P c) cs = filter (\<lambda>c. \<not> P c) (dropWhile P cs)"
    by (induction cs) auto
  with 2 show ?case by simp
qed

lemma set_replace_runs_const:
  "set (replace_runs P (\<lambda>_. r) xs) \<subseteq> {c \<in> set xs. \<not> P c} \<union> set r"
proof (induction P "\<lambda>_::'a list. r" xs rule: replace_runs.induct)
  case (1 P)
  then show ?case by simp
next
  case (2 P c cs)
  then show ?case by (auto dest: set_dropWhileD)
qed

lemma hd_replace_runs_not:
  "xs \<noteq> [] \<Longrightarrow> \<not> P (hd xs) \<Longrightarrow> replace_runs P f xs \<noteq> [] \<and> hd (replace_runs P f xs) = hd xs"
  by (cases xs) auto

lemma no_whitespace_run_nth:
  "no_whitespace_run s \<longleftrightarrow>
     (\<forall>i. Suc i < length s \<longrightarrow> \<not> (is_whitespace (s ! i) \<and> is_whitespace (s ! Suc i)))"
  by (simp add: no_whitespace_run_def successively_conv_nth)

lemma successively_collapse:
  "successively (\<lambda>x y. \<not> (P x \<and> P y)) (replace_runs P (\<lambda>_. [a]) xs)"
proof (induction P "\<lambda>_::'a list. [a]" xs rule: replace_runs.induct)
  case (1 P)
  then show ?case by simp
next
  case (2 P c cs)
  show ?case
  proof (cases "P c")
    case True
    show ?thesis
    proof (cases "dropWhile P cs = []")
      case True
      then have "replace_runs P (\<lambda>_. [a]) (dropWhile P cs) = []"
        by (simp only: replace_runs.simps)
      with \<open>P c\<close> show ?thesis by simp
    next
      case False
      with hd_dropWhile [OF False] hd_replace_runs_not [of "dropWhile P cs" P "\<lambda>_. [a]"]
      have "replace_runs P (\<lambda>_. [a]) (dropWhile P cs) \<noteq> []"
        and "\<not> P (hd (replace_runs P (\<lambda>_. [a]) (dropWhile P cs)))"
        by auto
      with 2(1) [OF True] True show ?thesis
        by (simp add: successively_Cons)
    qed
  next
    case False
    with 2(2) [OF False] show ?thesis
      by (simp add: successively_Cons)
  qed
qed

lemma successively_take: "successively P xs \<Longrightarrow> successively P (take n xs)"
  using successively_append_iff [of P "take n xs" "drop n xs"] by simp

lemma successively_drop: "successively P xs \<Longrightarrow> successively P (drop n xs)"
  using successively_append_iff [of P "take n xs" "drop n xs"] by simp

lemma js_trimEnd_take:
  "js_trimEnd s = take (length s - length (takeWhile is_whitespace (rev s))) s"
  by (simp add: js_trimEnd_def dropWhile_eq_drop rev_drop)

lemma js_trimStart_drop:
  "js_trimStart s = drop (length (takeWhile is_whitespace s)) s"
  by (simp add: js_trimStart_def dropWhile_eq_drop)

lemma length_js_trimEnd: "length (js_trimEnd s) \<le> length s"
  by (simp add: js_trimEnd_take)

lemma set_js_trimEnd: "set (js_trimEnd s) \<subseteq> set s"
  by (simp add: js_trimEnd_take set_take_subset)

lemma set_js_trim: "set (js_trim s) \<subseteq> set s"
  unfolding js_trim_def
  using set_js_trimEnd [of "js_trimStart s"] set_drop_subset [of _ s]
  by (auto simp: js_trimStart_drop)

lemma no_whitespace_run_trimEnd: "no_whitespace_run s \<Longrightarrow> no_whitespace_run (js_trimEnd s)"
  by (simp add: no_whitespace_run_def js_trimEnd_take successively_take)

lemma no_whitespace_run_trim: "no_whitespace_run s \<Longrightarrow> no_whitespace_run (js_trim s)"
  using no_whitespace_run_trimEnd [of "js_trimStart s"]
  by (simp add: js_trim_def no_whitespace_run_def js_trimStart_drop successively_drop)

lemma js_slice_prefix: "0 \<le> e \<Longrightarrow> js_slice xs 0 e = take (nat e) xs"
  by (auto simp: js_slice_def Let_def min_def)

lemma cleaned_text_no_control: "c \<in> set (cleaned_text s) \<Longrightarrow> \<not> is_control_char c"
proof -
  assume "c \<in> set (cleaned_text s)"
  then have "c \<in> set (replace_runs is_whitespace (\<lambda>_. js '' '')
                        (replace_runs is_control_char (\<lambda>_. []) s))"
    using set_js_trim unfolding cleaned_text_def by blast
  then have "c \<in> {c \<in> set (replace_runs is_control_char (\<lambda>_. []) s). \<not> is_whitespace c} \<union> set (js '' '')"
    using set_replace_runs_const [of is_whitespace "js '' ''"] by blast
  then show ?thesis
    by (auto simp: replace_runs_remove js_def is_control_char_def)
qed

lemma no_whitespace_run_collapse:
  "no_whitespace_run (replace_runs is_whitespace (\<lambda>_. js '' '') xs)"
proof -
  have "js '' '' = [0x20]" by (simp add: js_def)
  then show ?thesis
    unfolding no_whitespace_run_def by (simp only: successively_collapse)
qed

lemma cleaned_text_no_run: "no_whitespace_run (cleaned_text s)"
  unfolding cleaned_text_def
  by (rule no_whitespace_run_trim) (rule no_whitespace_run_collapse)

lemma sanitizeText_cleaned:
  "sanitizeText s maxLen =
     (if s = [] then []
      else if int (length (cleaned_text s)) > maxLen
           then js_trimEnd (js_slice (cleaned_text s) 0 (maxLen - 3)) @ js ''...''
           else cleaned_text s)"
  by (simp add: sanitizeText_def Let_def)

lemma sanitizeText_length:
  assumes "3 \<le> maxLen"
  shows "int (length (sanitizeText s maxLen)) \<le> maxLen"
proof -
  have "length (js_trimEnd (take (nat (maxLen - 3)) (cleaned_text s))) \<le> nat (maxLen - 3)"
    using length_js_trimEnd [of "take (nat (maxLen - 3)) (cleaned_text s)"] by simp
  then have "int (length (js_trimEnd (take (nat (maxLen - 3)) (cleaned_text s)))) + 3 \<le> maxLen"
    using assms by linarith
  then have "int (length (js_trimEnd (js_slice (cleaned_text s) 0 (maxLen - 3)) @ js ''...'')) \<le> maxLen"
    using assms by (simp add: js_slice_prefix js_def)
  with assms show ?thesis
    by (simp add: sanitizeText_cleaned)
qed

lemma sanitizeText_no_control:
  assumes "c \<in> set (sanitizeText s maxLen)"
  shows "\<not> is_control_char c"
proof -
  have dots: "\<not> is_control_char d" if "d \<in> set (js ''...'')" for d
    using that by (auto simp: js_def is_control_char_def)
  have pre: "\<not> is_control_char d"
    if "d \<in> set (js_trimEnd (js_slice (cleaned_text s) 0 (maxLen - 3)))" for d
  proof -
    from that have "d \<in> set (js_slice (cleaned_text s) 0 (maxLen - 3))"
      using set_js_trimEnd by blast
    then have "d \<in> set (cleaned_text s)"
      by (auto simp: js_slice_def Let_def dest: in_set_takeD in_set_dropD)
    then show ?thesis by (rule cleaned_text_no_control)
  qed
  from assms dots pre cleaned_text_no_control show ?thesis
    by (auto simp: sanitizeText_cleaned split: if_splits)
qed

lemma sanitizeText_no_run: "no_whitespace_run (sanitizeText s maxLen)"
proof -
  have "no_whitespace_run (js_slice (cleaned_text s) 0 (maxLen - 3))"
    using cleaned_text_no_run [of s]
    by (simp add: js_slice_def Let_def no_whitespace_run_def successively_take successively_drop)
  then have "no_whitespace_run (js_trimEnd (js_slice (cleaned_text s) 0 (maxLen - 3)))"
    by (rule no_whitespace_run_trimEnd)
  then have "no_whitespace_run (js_trimEnd (js_slice (cleaned_text s) 0 (maxLen - 3)) @ js ''...'')"
    by (simp add: no_whitespace_run_def successively_append_iff js_def is_whitespace_def)
  then show ?thesis
    using cleaned_text_no_run [of s]
    by (simp add: sanitizeText_cleaned no_whitespace_run_def)
qed

section \<open>The context block and its budget\<close>

















lemma less_relevant_content [simp]:
  "less_relevant (a\<lparr>pc_content := x\<rparr>) (b\<lparr>pc_content := y\<rparr>) = less_relevant a b"
  by (simp add: less_relevant_def)






section \<open>Adaptive retrieval\<close>














lemmas demo_simps = demo_env_def demo_store_def demo_row_def demo_chunk_def
      default_config_def strict_args_def fallback_args_def rows_of_def normalizeChunks_def
      top_similarity_def js_Math_max_def js_def


section \<open>The handler of the query endpoint\<close>

lemma POST_retrieved:
  assumes "req_messages req = Some msgs" and "msgs \<noteq> []" and "msg_role (last msgs) = js ''user''"
    and "retrieveChunks env cfg (sanitizeText (msg_content (last msgs)) 3000) (req_sessionId req)
           = (Inr chunks, calls)"
  shows "POST env cfg req =
     (if insufficient_context cfg chunks then
        (NextResponse_json
           (InsufficientBody
              \<lparr>answer = js ''INSUFFICIENT_CONTEXT'',
               reason = (if chunks = [] then js ''no_chunks_found'' else js ''low_similarity''),
               topSimilarity = top_similarity chunks,
               sources = build_sources chunks\<rparr>) 200,
         \<lparr>rpc_calls = calls, llm_calls = []\<rparr>)
      else
        (StreamResponse
           (fst (customStream env (build_sources chunks)
                   (provider_call env cfg (req_role req) (sanitizeText (msg_content (last msgs)) 3000) chunks)))
           (snd (customStream env (build_sources chunks)
                   (provider_call env cfg (req_role req) (sanitizeText (msg_content (last msgs)) 3000) chunks))),
         \<lparr>rpc_calls = calls,
          llm_calls = [provider_call env cfg (req_role req) (sanitizeText (msg_content (last msgs)) 3000) chunks]\<rparr>))"
  using assms
  by (simp add: POST_def Let_def insufficient_context_def)



lemma sanitize_q: "sanitizeText (js ''q'') 3000 = js ''q''"
  by (simp add: sanitizeText_def cleaned_text_def js_trim_def js_trimStart_def js_trimEnd_def
      is_whitespace_def is_control_char_def js_def)


lemma demo_strong_run:
  "retrieveChunks demo_env default_config (js ''q'') (js ''strong'') =
     (Inr [demo_chunk ''a'' (6 / 10)], [strict_args default_config [1, 0] (js ''strong'')])"
  by (simp add: retrieveChunks_def demo_simps Let_def)


lemma user_request_valid:
  "req_messages (user_request session flag) = Some [\<lparr>msg_role = js ''user'', msg_content = js ''q''\<rparr>]"
  "[\<lparr>msg_role = js ''user'', msg_content = js ''q''\<rparr>] \<noteq> []"
  "msg_role (last [\<lparr>msg_role = js ''user'', msg_content = js ''q''\<rparr>]) = js ''user''"
  by (simp_all add: user_request_def)




section \<open>The prefix of a streamed answer\<close>

lemma relay_prefix: "\<exists>more. fst (relay reads marker written) = written @ more"
proof (induction reads marker written rule: relay.induct)
  case (3 v rs marker written)
  then obtain more where "fst (relay rs marker (written @ [v])) = (written @ [v]) @ more" by blast
  then show ?case by simp
qed simp_all

lemma customStream_first:
  "\<exists>rest. fst (customStream env srcs call) = encode env (stringify_sources env srcs @ delimiter) # rest"
proof (cases "streamText env call")
  case (Body reads)
  from relay_prefix [of reads "encode env stream_error_marker"
      "[encode env (stringify_sources env srcs @ delimiter)]"]
  show ?thesis by (auto simp: customStream_def Let_def Body)
qed (simp_all add: customStream_def Let_def)

lemma scaled_rounding:
  fixes a y :: real
  assumes "\<bar>a - y * 10 ^ 4\<bar> \<le> 1 / 2"
  shows "\<bar>a / 10 ^ 4 - y\<bar> \<le> 5 / 10 ^ 5"
proof -
  have "a / 10 ^ 4 - y = (a - y * 10 ^ 4) / 10 ^ 4"
    by (simp add: field_simps)
  then have "\<bar>a / 10 ^ 4 - y\<bar> = \<bar>a - y * 10 ^ 4\<bar> / 10 ^ 4"
    by (simp only: abs_divide) simp
  also have "\<dots> \<le> (1 / 2) / 10 ^ 4"
    using assms by (rule divide_right_mono) simp
  finally show ?thesis by simp
qed

lemma toFixed4_decimal:
  assumes "\<bar>x\<bar> < 10 ^ 21"
  shows "(\<exists>k::int. toFixed4 x = of_int k / 10 ^ 4) \<and> \<bar>toFixed4 x - x\<bar> \<le> 5 / 10 ^ 5"
proof (cases "x < 0")
  case False
  let ?n = "\<lfloor>x * 10 ^ 4 + 1 / 2\<rfloor>"
  have v: "toFixed4 x = of_int ?n / 10 ^ 4"
    using assms False by (simp add: toFixed4_def)
  have "of_int ?n \<le> x * 10 ^ 4 + 1 / 2" "x * 10 ^ 4 + 1 / 2 < of_int ?n + 1"
    by linarith+
  then have "\<bar>of_int ?n - x * 10 ^ 4\<bar> \<le> 1 / 2" by linarith
  then have "\<bar>of_int ?n / 10 ^ 4 - x\<bar> \<le> 5 / 10 ^ 5"
    by (rule scaled_rounding)
  then have "\<bar>toFixed4 x - x\<bar> \<le> 5 / 10 ^ 5"
    by (simp only: v)
  moreover from v have "\<exists>k::int. toFixed4 x = of_int k / 10 ^ 4" by blast
  ultimately show ?thesis by blast
next
  case True
  define n where "n = \<lfloor>- x * 10 ^ 4 + 1 / 2\<rfloor>"
  have v: "toFixed4 x = of_int (- n) / 10 ^ 4"
    using assms True by (simp add: toFixed4_def n_def)
  have "of_int n \<le> - x * 10 ^ 4 + 1 / 2" "- x * 10 ^ 4 + 1 / 2 < of_int n + 1"
    unfolding n_def by linarith+
  then have "\<bar>- of_int n - x * 10 ^ 4\<bar> \<le> 1 / 2" by linarith
  then have "\<bar>of_int (- n) - x * 10 ^ 4\<bar> \<le> 1 / 2" by simp
  then have "\<bar>of_int (- n) / 10 ^ 4 - x\<bar> \<le> 5 / 10 ^ 5"
    by (rule scaled_rounding)
  then have "\<bar>toFixed4 x - x\<bar> \<le> 5 / 10 ^ 5"
    by (simp only: v)
  moreover from v have "\<exists>k::int. toFixed4 x = of_int k / 10 ^ 4" by blast
  ultimately show ?thesis by blast
qed

lemma POST_stream_retrieved:
  assumes "POST env cfg req = (StreamResponse written state, eff)"
  shows "\<exists>msgs chunks calls.
           req_messages req = Some msgs \<and> msgs \<noteq> [] \<and> msg_role (last msgs) = js ''user'' \<and>
           retrieveChunks env cfg (sanitizeText (msg_content (last msgs)) 3000) (req_sessionId req)
             = (Inr chunks, calls) \<and>
           \<not> insufficient_context cfg chunks"
proof -
  from assms obtain msgs where m: "req_messages req = Some msgs" "msgs \<noteq> []"
      "msg_role (last msgs) = js ''user''"
    by (auto simp: POST_def split: option.splits if_splits)
  obtain res calls where r:
    "retrieveChunks env cfg (sanitizeText (msg_content (last msgs)) 3000) (req_sessionId req) = (res, calls)"
    by (cases "retrieveChunks env cfg (sanitizeText (msg_content (last msgs)) 3000) (req_sessionId req)")
  from assms m r obtain chunks where c: "res = Inr chunks"
    by (cases res) (auto simp: POST_def Let_def)
  from assms POST_retrieved [OF m r [unfolded c]] have "\<not> insufficient_context cfg chunks"
    by (auto split: if_splits)
  with m r c show ?thesis by blast
qed

text \<open>
  Claim C9, amended.  For every streamed answer, the first chunk written to the stream is
  the encoding of \<open>JSON.stringify({ sources })\<close> followed by the delimiter, before any
  chunk of the provider.  The source list has one entry per retrieved fragment, with its
  page, its similarity rounded to 4 decimals (for a similarity of magnitude below
  \<open>10^21\<close>), and as excerpt the content when it has at most 200 characters, and
  otherwise its first 200 characters followed by three dots: at most 203 characters.
\<close>

theorem POST_stream_starts_with_sources:
  assumes "POST env cfg req = (StreamResponse written state, eff)"
  shows "\<exists>msgs chunks calls rest.
           req_messages req = Some msgs \<and>
           retrieveChunks env cfg (sanitizeText (msg_content (last msgs)) 3000) (req_sessionId req)
             = (Inr chunks, calls) \<and>
           written = encode env (stringify_sources env (build_sources chunks) @ delimiter) # rest \<and>
           length (build_sources chunks) = length chunks \<and>
           (\<forall>i < length chunks.
              src_page (build_sources chunks ! i) = page_number (chunks ! i) \<and>
              (\<bar>similarity (chunks ! i)\<bar> < 10 ^ 21 \<longrightarrow>
                 (\<exists>k::int. src_similarity (build_sources chunks ! i) = of_int k / 10 ^ 4) \<and>
                 \<bar>src_similarity (build_sources chunks ! i) - similarity (chunks ! i)\<bar> \<le> 5 / 10 ^ 5) \<and>
              excerpt (build_sources chunks ! i) =
                (if length (content (chunks ! i)) > 200
                 then take 200 (content (chunks ! i)) @ js ''...''
                 else content (chunks ! i)) \<and>
              length (excerpt (build_sources chunks ! i)) \<le> 203)"
proof -
  from POST_stream_retrieved [OF assms] obtain msgs chunks calls where
    m: "req_messages req = Some msgs" "msgs \<noteq> []" "msg_role (last msgs) = js ''user''"
    and r: "retrieveChunks env cfg (sanitizeText (msg_content (last msgs)) 3000) (req_sessionId req)
             = (Inr chunks, calls)"
    and ok: "\<not> insufficient_context cfg chunks"
    by blast
  let ?call = "provider_call env cfg (req_role req) (sanitizeText (msg_content (last msgs)) 3000) chunks"
  from assms POST_retrieved [OF m r] ok
  have w: "written = fst (customStream env (build_sources chunks) ?call)"
    by simp
  from customStream_first [of env "build_sources chunks" ?call] obtain rest where
    first: "written = encode env (stringify_sources env (build_sources chunks) @ delimiter) # rest"
    unfolding w by blast
  have each: "src_page (build_sources chunks ! i) = page_number (chunks ! i) \<and>
              (\<bar>similarity (chunks ! i)\<bar> < 10 ^ 21 \<longrightarrow>
                 (\<exists>k::int. src_similarity (build_sources chunks ! i) = of_int k / 10 ^ 4) \<and>
                 \<bar>src_similarity (build_sources chunks ! i) - similarity (chunks ! i)\<bar> \<le> 5 / 10 ^ 5) \<and>
              excerpt (build_sources chunks ! i) =
                (if length (content (chunks ! i)) > 200
                 then take 200 (content (chunks ! i)) @ js ''...''
                 else content (chunks ! i)) \<and>
              length (excerpt (build_sources chunks ! i)) \<le> 203"
    if "i < length chunks" for i
    using that toFixed4_decimal [of "similarity (chunks ! i)"]
    by (simp add: build_sources_def js_def)
  have len: "length (build_sources chunks) = length chunks"
    by (simp add: build_sources_def)
  from m(1) r first len each show ?thesis by blast
qed


lemma demo_streamText: "streamText demo_env call = Body [ReadValue (Some [0x48, 0x69]), ReadDone]"
  by (simp add: demo_env_def)

lemma demo_long_run:
  "retrieveChunks demo_env default_config (js ''q'') (js ''long'') =
     (Inr [long_chunk], [strict_args default_config [1, 0] (js ''long'')])"
  by (simp add: retrieveChunks_def demo_simps long_chunk_def Let_def)

lemma demo_stream:
  assumes "retrieveChunks demo_env default_config (js ''q'') (js session) = (Inr chunks, calls)"
    and "\<not> insufficient_context default_config chunks"
  shows "POST demo_env default_config (user_request session None) =
     (StreamResponse
        [encode demo_env (stringify_sources demo_env (build_sources chunks) @ delimiter), [0x48, 0x69]]
        Closed,
      \<lparr>rpc_calls = calls,
       llm_calls = [provider_call demo_env default_config strict_qa (js ''q'') chunks]\<rparr>)"
proof -
  have r: "retrieveChunks demo_env default_config
             (sanitizeText (msg_content (last [\<lparr>msg_role = js ''user'', msg_content = js ''q''\<rparr>])) 3000)
             (req_sessionId (user_request session None)) = (Inr chunks, calls)"
    using assms(1) by (simp add: sanitize_q user_request_def)
  show ?thesis
    unfolding POST_retrieved [OF user_request_valid r]
    using assms(2) by (simp add: customStream_def demo_streamText sanitize_q user_request_def)
qed

lemma strong_sufficient: "\<not> insufficient_context default_config [demo_chunk ''a'' (6 / 10)]"
  by (simp add: insufficient_context_def top_similarity_def js_Math_max_def demo_chunk_def
      default_config_def)

lemma long_sufficient: "\<not> insufficient_context default_config [long_chunk]"
  by (simp add: insufficient_context_def top_similarity_def js_Math_max_def long_chunk_def
      default_config_def)

theorem POST_stream_starts_with_sources_witness:
  "POST demo_env default_config (user_request ''strong'' None) =
     (StreamResponse
        [encode demo_env
           (stringify_sources demo_env (build_sources [demo_chunk ''a'' (6 / 10)]) @ delimiter),
         [0x48, 0x69]]
        Closed,
      \<lparr>rpc_calls = [strict_args default_config [1, 0] (js ''strong'')],
       llm_calls = [provider_call demo_env default_config strict_qa (js ''q'')
                      [demo_chunk ''a'' (6 / 10)]]\<rparr>) \<and>
   (\<exists>msgs chunks calls rest.
      req_messages (user_request ''strong'' None) = Some msgs \<and>
      retrieveChunks demo_env default_config (sanitizeText (msg_content (last msgs)) 3000)
        (req_sessionId (user_request ''strong'' None)) = (Inr chunks, calls) \<and>
      [encode demo_env
         (stringify_sources demo_env (build_sources [demo_chunk ''a'' (6 / 10)]) @ delimiter),
       [0x48, 0x69]]
        = encode demo_env (stringify_sources demo_env (build_sources chunks) @ delimiter) # rest \<and>
      length (build_sources chunks) = length chunks \<and>
      (\<forall>i < length chunks.
         src_page (build_sources chunks ! i) = page_number (chunks ! i) \<and>
         (\<bar>similarity (chunks ! i)\<bar> < 10 ^ 21 \<longrightarrow>
            (\<exists>k::int. src_similarity (build_sources chunks ! i) = of_int k / 10 ^ 4) \<and>
            \<bar>src_similarity (build_sources chunks ! i) - similarity (chunks ! i)\<bar> \<le> 5 / 10 ^ 5) \<and>
         excerpt (build_sources chunks ! i) =
           (if length (content (chunks ! i)) > 200
            then take 200 (content (chunks ! i)) @ js ''...''
            else content (chunks ! i)) \<and>
         length (excerpt (build_sources chunks ! i)) \<le> 203))"
proof -
  note h = demo_stream [OF demo_strong_run strong_sufficient]
  from h POST_stream_starts_with_sources [OF h] show ?thesis by (rule conjI)
qed

text \<open>
  A streamed answer whose source list has an excerpt of 203 characters: the first 200
  characters of a fragment of 201 characters, and the three dots.
\<close>

theorem POST_excerpt_exceeds_200:
  "fst (POST demo_env default_config (user_request ''long'' None)) =
     StreamResponse
       [encode demo_env (stringify_sources demo_env (build_sources [long_chunk]) @ delimiter),
        [0x48, 0x69]]
       Closed \<and>
   length (excerpt (hd (build_sources [long_chunk]))) = 203"
  by (simp add: demo_stream [OF demo_long_run long_sufficient] build_sources_def long_chunk_def js_def)

section \<open>What reaches the provider\<close>

lemma sanitizeText_within:
  assumes "3 \<le> maxLen"
  shows "sanitized_within maxLen (sanitizeText s maxLen)"
proof -
  have "\<not> (is_whitespace (sanitizeText s maxLen ! i) \<and> is_whitespace (sanitizeText s maxLen ! Suc i))"
    if "i < length (sanitizeText s maxLen) - 1" for i
  proof -
    from that have "Suc i < length (sanitizeText s maxLen)" by simp
    with sanitizeText_no_run [of s maxLen] show ?thesis
      unfolding no_whitespace_run_nth by blast
  qed
  with sanitizeText_length [OF assms, of s] sanitizeText_no_control [of _ s maxLen]
  show ?thesis
    unfolding sanitized_within_def by blast
qed

lemma truncatedChunksForPrompt_content:
  "p \<in> set (truncatedChunksForPrompt cfg chunks) \<Longrightarrow>
     \<exists>t. pc_content p = sanitizeText t (PER_CHUNK_CHARS cfg)"
  by (auto simp: truncatedChunksForPrompt_def)

lemma POST_llm_calls:
  assumes "call \<in> set (llm_calls (snd (POST env cfg req)))"
  shows "\<exists>(msgs :: message list) chunks. call = provider_call env cfg (req_role req)
                                 (sanitizeText (msg_content (last msgs)) 3000) chunks"
proof -
  from assms obtain msgs where m: "req_messages req = Some msgs" "msgs \<noteq> []"
      "msg_role (last msgs) = js ''user''"
    by (auto simp: POST_def split: option.splits if_splits)
  obtain res calls where r:
    "retrieveChunks env cfg (sanitizeText (msg_content (last msgs)) 3000) (req_sessionId req) = (res, calls)"
    by (cases "retrieveChunks env cfg (sanitizeText (msg_content (last msgs)) 3000) (req_sessionId req)")
  from assms m r obtain chunks where c: "res = Inr chunks"
    by (cases res) (auto simp: POST_def Let_def)
  from assms POST_retrieved [OF m r [unfolded c]]
  have "call = provider_call env cfg (req_role req) (sanitizeText (msg_content (last msgs)) 3000) chunks"
    by (auto split: if_splits)
  then show ?thesis by blast
qed

text \<open>
  Claim C10.  For every string and every \<open>maxLen\<close> of at least 3, the result of
  \<open>sanitizeText\<close> has at most \<open>maxLen\<close> characters, none of the control characters
  U+0000..U+0008, U+000B, U+000C, U+000E..U+001F, and no two white-space characters in a
  row.  In every call that the handler makes to the provider, the user question is such a
  result for \<open>maxLen = 3000\<close>, and the fragments handed to \<open>buildSystemPrompt\<close> have
  contents that are such results for \<open>maxLen = PER_CHUNK_CHARS\<close> (when that is at
  least 3).
\<close>

theorem sanitizeText_bounds:
  assumes "3 \<le> maxLen"
  shows "sanitized_within maxLen (sanitizeText s maxLen) \<and>
     (\<forall>call \<in> set (llm_calls (snd (POST env cfg req))).
        (\<forall>m \<in> set (llm_messages call). sanitized_within 3000 (msg_content m)) \<and>
        (3 \<le> PER_CHUNK_CHARS cfg \<longrightarrow>
           (\<exists>chunks.
              llm_system call =
                buildSystemPrompt (normalize_NFKC env) chunks (req_role req) (prompt_opts cfg) \<and>
              (\<forall>p \<in> set chunks. sanitized_within (PER_CHUNK_CHARS cfg) (pc_content p)))))"
proof (intro conjI ballI impI)
  show "sanitized_within maxLen (sanitizeText s maxLen)"
    using assms by (rule sanitizeText_within)
next
  fix call m
  assume "call \<in> set (llm_calls (snd (POST env cfg req)))" and m: "m \<in> set (llm_messages call)"
  from POST_llm_calls [OF this(1)] obtain msgs :: "message list" and chunks where
    "call = provider_call env cfg (req_role req) (sanitizeText (msg_content (last msgs)) 3000) chunks"
    by blast
  with m have "msg_content m = sanitizeText (msg_content (last msgs)) 3000"
    by (simp add: provider_call_def)
  then show "sanitized_within 3000 (msg_content m)"
    by (simp add: sanitizeText_within)
next
  fix call
  assume "call \<in> set (llm_calls (snd (POST env cfg req)))" and per: "3 \<le> PER_CHUNK_CHARS cfg"
  from POST_llm_calls [OF this(1)] obtain msgs :: "message list" and chunks where
    "call = provider_call env cfg (req_role req) (sanitizeText (msg_content (last msgs)) 3000) chunks"
    by blast
  then have "llm_system call =
      buildSystemPrompt (normalize_NFKC env) (truncatedChunksForPrompt cfg chunks) (req_role req)
        (prompt_opts cfg)"
    by (simp add: provider_call_def)
  moreover have "\<forall>p \<in> set (truncatedChunksForPrompt cfg chunks).
      sanitized_within (PER_CHUNK_CHARS cfg) (pc_content p)"
    using truncatedChunksForPrompt_content [of _ cfg chunks] sanitizeText_within [OF per]
    by metis
  ultimately show "\<exists>chunks.
      llm_system call =
        buildSystemPrompt (normalize_NFKC env) chunks (req_role req) (prompt_opts cfg) \<and>
      (\<forall>p \<in> set chunks. sanitized_within (PER_CHUNK_CHARS cfg) (pc_content p))"
    by blast
qed

theorem sanitizeText_bounds_witness:
  "(3::int) \<le> 7 \<and>
   sanitizeText messy_text 7 = js ''ab c...'' \<and>
   sanitized_within 7 (sanitizeText messy_text 7) \<and>
   llm_calls (snd (POST demo_env default_config (user_request ''strong'' None)))
     = [provider_call demo_env default_config strict_qa (js ''q'') [demo_chunk ''a'' (6 / 10)]] \<and>
   sanitized_within 3000 (js ''q'') \<and>
   (\<exists>chunks.
      llm_system (provider_call demo_env default_config strict_qa (js ''q'') [demo_chunk ''a'' (6 / 10)])
        = buildSystemPrompt (normalize_NFKC demo_env) chunks
            (req_role (user_request ''strong'' None)) (prompt_opts default_config) \<and>
      (\<forall>p \<in> set chunks. sanitized_within (PER_CHUNK_CHARS default_config) (pc_content p)))"
proof -
  have h: "(3::int) \<le> 7" by simp
  have v: "sanitizeText messy_text 7 = js ''ab c...''"
    by (simp add: messy_text_def sanitizeText_def cleaned_text_def js_def js_trim_def
        js_trimEnd_def js_trimStart_def is_whitespace_def is_control_char_def js_slice_def)
  have c: "llm_calls (snd (POST demo_env default_config (user_request ''strong'' None)))
     = [provider_call demo_env default_config strict_qa (js ''q'') [demo_chunk ''a'' (6 / 10)]]"
    by (simp add: demo_stream [OF demo_strong_run strong_sufficient])
  have mem: "provider_call demo_env default_config strict_qa (js ''q'') [demo_chunk ''a'' (6 / 10)]
               \<in> set (llm_calls (snd (POST demo_env default_config (user_request ''strong'' None))))"
    by (simp add: c)
  have per: "3 \<le> PER_CHUNK_CHARS default_config"
    by (simp add: default_config_def)
  note t = sanitizeText_bounds [OF h, of messy_text demo_env default_config "user_request ''strong'' None"]
  note t1 = t [THEN conjunct1]
  note t2 = t [THEN conjunct2, rule_format, OF mem]
  have q: "sanitized_within 3000 (js ''q'')"
    using t2 [THEN conjunct1] by (simp add: provider_call_def)
  note chunks = t2 [THEN conjunct2, rule_format, OF per]
  show ?thesis
    by (intro conjI) (rule h v t1 c q chunks)+
qed

end
